theory Spec2Isabelle
  imports Main
begin

section \<open>ColorVM: data model\<close>

text \<open>
  The three colour threads of \<^verbatim>\<open>colorvm.py\<close>. The dictionaries of the source that are
  keyed by \<^verbatim>\<open>'r'\<close>, \<^verbatim>\<open>'g'\<close>, \<^verbatim>\<open>'b'\<close> are functions on this type; the fourth stack
  \<^verbatim>\<open>colorstack['a']\<close> is the field \<open>astack\<close>, since \<^verbatim>\<open>colorexec\<close> is only ever
  called with one of the three colours.
\<close>

datatype color = R | G | B

datatype tstate = LOADING | RUNNING | AWAIT | HALTED | OVERRUN

text \<open>
  The exceptions that the interpreter can raise (none of them is caught anywhere in the
  source, so each one ends the whole process), and \<^verbatim>\<open>exit()\<close>.
\<close>

datatype error = ZeroDivisionError | IndexError | ValueError | EOFError | SystemExit

text \<open>The texts given to \<^verbatim>\<open>mesg\<close>, with the numbers they interpolate.\<close>

datatype message =
    InvalidInstruction int color int
  | ThreadDeadlock
  | ThreadsHalted
  | InvalidVersion nat nat
  | LengthZero

text \<open>What reaches standard output: \<^verbatim>\<open>print\<close> of \<^verbatim>\<open>outc\<close> and \<^verbatim>\<open>outi\<close>, and the prompts of \<^verbatim>\<open>input\<close>.\<close>

datatype out_event = PrintChar int | PrintInt int | PromptChar color | PromptInt color

record vm =
  colorstack :: "color \<Rightarrow> int list"
  astack :: "int list"
  colorcode :: "color \<Rightarrow> int list"
  colorstate :: "color \<Rightarrow> tstate"
  colorip :: "color \<Rightarrow> int"
  colorstat :: "color \<Rightarrow> string \<Rightarrow> int"
  waitstack :: "color list"
  size :: int
  silent :: bool
  messages :: "message list"
  stdin :: "string list"
  stdout :: "out_event list"

definition colors :: "color list" where
  "colors = [R, G, B]"

section \<open>Python list primitives\<close>

text \<open>
  A Python list is a HOL list in the same order: \<^verbatim>\<open>append\<close> adds at the end and
  \<^verbatim>\<open>pop()\<close> takes the last element. Indexing accepts negative indices and raises
  \<^verbatim>\<open>IndexError\<close> outside the list.
\<close>

definition py_index :: "'a list \<Rightarrow> int \<Rightarrow> error + 'a" where
  "py_index xs i =
     (if 0 \<le> i \<and> i < int (length xs) then Inr (xs ! nat i)
      else if i < 0 \<and> 0 \<le> i + int (length xs) then Inr (xs ! nat (i + int (length xs)))
      else Inl IndexError)"

text \<open>\<^verbatim>\<open>list.insert(i, v)\<close>: a negative index counts from the end, and the index is clamped.\<close>

definition py_insert :: "'a list \<Rightarrow> int \<Rightarrow> 'a \<Rightarrow> 'a list" where
  "py_insert xs i v =
     (let n = int (length xs);
          j = (if i < 0 then max 0 (i + n) else min i n)
      in take (nat j) xs @ [v] @ drop (nat j) xs)"

text \<open>\<^verbatim>\<open>str.isdecimal()\<close> on a line of code points below 256: non-empty, all of them digits.\<close>

definition isdecimal :: "string \<Rightarrow> bool" where
  "isdecimal v = (v \<noteq> [] \<and> list_all (\<lambda>ch. 48 \<le> (of_char ch :: nat) \<and> (of_char ch :: nat) \<le> 57) v)"

definition int_of_decimal :: "string \<Rightarrow> int" where
  "int_of_decimal v = foldl (\<lambda>acc ch. 10 * acc + (int (of_char ch) - 48)) 0 v"

section \<open>State access\<close>

definition set_stack :: "vm \<Rightarrow> color \<Rightarrow> int list \<Rightarrow> vm" where
  "set_stack s c xs = s\<lparr>colorstack := (colorstack s)(c := xs)\<rparr>"

text \<open>\<^verbatim>\<open>colorstat[c][k] += 1\<close>\<close>

definition count :: "string \<Rightarrow> vm \<Rightarrow> color \<Rightarrow> vm" where
  "count k s c = s\<lparr>colorstat := (colorstat s)(c := (colorstat s c)(k := colorstat s c k + 1))\<rparr>"

text \<open>\<^verbatim>\<open>mesg\<close> prints unless \<^verbatim>\<open>args.silent\<close>.\<close>

definition mesg :: "message \<Rightarrow> vm \<Rightarrow> vm" where
  "mesg m s = (if silent s then s else s\<lparr>messages := messages s @ [m]\<rparr>)"

section \<open>The executor \<^verbatim>\<open>colorexec\<close>\<close>

text \<open>
  The guarded patterns of the source. \<open>binop\<close> is
  \<^verbatim>\<open>if len(st) >= 2: st.append(f(st.pop(), st.pop()))\<close>: the left operand is popped
  first, so it is the top of the stack. \<open>unop\<close> is the same with one operand.
\<close>

definition binop :: "(int \<Rightarrow> int \<Rightarrow> int) \<Rightarrow> vm \<Rightarrow> color \<Rightarrow> vm" where
  "binop f s c =
     (let st = colorstack s c in
      if length st \<ge> 2
      then set_stack s c (butlast (butlast st) @ [f (last st) (last (butlast st))])
      else s)"

definition unop :: "(int \<Rightarrow> int) \<Rightarrow> vm \<Rightarrow> color \<Rightarrow> vm" where
  "unop f s c =
     (let st = colorstack s c in
      if length st \<ge> 1 then set_stack s c (butlast st @ [f (last st)]) else s)"

text \<open>\<^verbatim>\<open>div\<close> and \<^verbatim>\<open>rem\<close>: \<^verbatim>\<open>//\<close> and \<^verbatim>\<open>%\<close> raise on a zero right operand.\<close>

definition divop :: "(int \<Rightarrow> int \<Rightarrow> int) \<Rightarrow> vm \<Rightarrow> color \<Rightarrow> error + vm" where
  "divop f s c =
     (let st = colorstack s c in
      if length st \<ge> 2
      then (if last (butlast st) = 0 then Inl ZeroDivisionError
            else Inr (set_stack s c (butlast (butlast st) @ [f (last st) (last (butlast st))])))
      else Inr s)"

definition rot :: "vm \<Rightarrow> color \<Rightarrow> error + vm" where
  "rot s c =
     (let st = colorstack s c in
      if length st \<ge> 1
      then (let torot = last st; st1 = butlast st in
            if int (length st1) \<ge> torot
            then (if st1 = [] then Inl IndexError
                  else (let extract = last st1; st2 = butlast st1 in
                        Inr (set_stack s c
                          (py_insert st2 ((int (length st2) - 1) - (torot - 2)) extract))))
            else Inr (set_stack s c st1))
      else Inr s)"

text \<open>
  \<^verbatim>\<open>jmpz\<close> (\<open>taken v\<close> is \<open>v = 0\<close>) and \<^verbatim>\<open>jmpnz\<close> (\<open>taken v\<close> is \<open>v \<noteq> 0\<close>): the
  target is stored minus one, the main sequence adds one afterwards.
\<close>

definition jump :: "(int \<Rightarrow> bool) \<Rightarrow> vm \<Rightarrow> color \<Rightarrow> vm" where
  "jump taken s c =
     (let st = colorstack s c in
      if length st \<ge> 2
      then (let val = last st; address = last (butlast st);
                s1 = set_stack s c (butlast (butlast st)) in
            if taken val
            then (if 0 \<le> address \<and> address < size s
                  then s1\<lparr>colorip := (colorip s1)(c := address - 1)\<rparr>
                  else s1\<lparr>colorip := (colorip s1)(c := size s - 1)\<rparr>)
            else s1)
      else s)"

text \<open>\<^verbatim>\<open>chr\<close> raises outside \<open>0 .. 0x10FFFF\<close>; only ASCII characters are printed.\<close>

definition outc :: "vm \<Rightarrow> color \<Rightarrow> error + vm" where
  "outc s c =
     (let st = colorstack s c in
      if length st \<ge> 1
      then (let n = last st; s1 = set_stack s c (butlast st) in
            if n < 0 \<or> n > 1114111 then Inl ValueError
            else if n < 128 then Inr (s1\<lparr>stdout := stdout s1 @ [PrintChar n]\<rparr>)
            else Inr s1)
      else Inr s)"

definition outi :: "vm \<Rightarrow> color \<Rightarrow> vm" where
  "outi s c =
     (let st = colorstack s c in
      if length st \<ge> 1
      then (set_stack s c (butlast st))\<lparr>stdout := stdout s @ [PrintInt (last st)]\<rparr>
      else s)"

text \<open>
  \<^verbatim>\<open>input(prompt)\<close> writes the prompt, then reads one line without its newline; at the end
  of the input it raises \<^verbatim>\<open>EOFError\<close>. \<^verbatim>\<open>inc\<close> indexes the line at 0 with no check.
\<close>

definition inc :: "vm \<Rightarrow> color \<Rightarrow> error + vm" where
  "inc s c =
     (let s1 = s\<lparr>stdout := stdout s @ [PromptChar c]\<rparr> in
      case stdin s1 of
        [] \<Rightarrow> Inl EOFError
      | char # rest \<Rightarrow>
          (case py_index char 0 of
             Inl e \<Rightarrow> Inl e
           | Inr ch \<Rightarrow>
               Inr (set_stack (s1\<lparr>stdin := rest\<rparr>) c (colorstack s c @ [int (of_char ch)]))))"

definition ini :: "vm \<Rightarrow> color \<Rightarrow> error + vm" where
  "ini s c =
     (let s1 = s\<lparr>stdout := stdout s @ [PromptInt c]\<rparr> in
      case stdin s1 of
        [] \<Rightarrow> Inl EOFError
      | v # rest \<Rightarrow>
          (let s2 = s1\<lparr>stdin := rest\<rparr> in
           if isdecimal v then Inr (set_stack s2 c (colorstack s c @ [int_of_decimal v]))
           else Inr s2))"

definition pusha :: "vm \<Rightarrow> color \<Rightarrow> vm" where
  "pusha s c =
     (let st = colorstack s c in
      if length st \<ge> 1
      then (set_stack s c (butlast st))\<lparr>astack := astack s @ [last st]\<rparr>
      else s)"

definition waita :: "vm \<Rightarrow> color \<Rightarrow> vm" where
  "waita s c =
     (if length (astack s) \<ge> 1
      then (set_stack s c (colorstack s c @ [last (astack s)]))
             \<lparr>astack := butlast (astack s), colorstate := (colorstate s)(c := RUNNING)\<rparr>
      else s\<lparr>colorstate := (colorstate s)(c := AWAIT),
             waitstack := waitstack s @ [c],
             colorip := (colorip s)(c := colorip s c - 1)\<rparr>)"

text \<open>
  \<^verbatim>\<open>value << shiftval\<close> raises \<^verbatim>\<open>ValueError\<close> on a negative count. The source has this
  same expression under \<^verbatim>\<open>shl\<close> and under \<^verbatim>\<open>shr\<close>.
\<close>

definition shift_left :: "vm \<Rightarrow> color \<Rightarrow> error + vm" where
  "shift_left s c =
     (let st = colorstack s c in
      if length st \<ge> 2
      then (let shiftval = last st; val = last (butlast st) in
            if shiftval < 0 then Inl ValueError
            else Inr (set_stack s c (butlast (butlast st) @ [push_bit (nat shiftval) val])))
      else Inr s)"

text \<open>Sequencing: the counter is incremented after the guarded body, if that did not raise.\<close>

definition then_count :: "string \<Rightarrow> color \<Rightarrow> error + vm \<Rightarrow> error + vm" where
  "then_count k c r = (case r of Inl e \<Rightarrow> Inl e | Inr s \<Rightarrow> Inr (count k s c))"

text \<open>The \<^verbatim>\<open>match\<close> of \<^verbatim>\<open>colorexec\<close> on the byte at the instruction pointer.\<close>

definition exec_op :: "int \<Rightarrow> vm \<Rightarrow> color \<Rightarrow> error + vm" where
  "exec_op opc s c =
     (if 0 \<le> opc \<and> opc \<le> 127
        then Inr (count ''push'' (set_stack s c (colorstack s c @ [opc])) c)
      else if opc = 128 then Inr (count ''add'' (binop (\<lambda>x y. x + y) s c) c)
      else if opc = 132 then Inr (count ''sub'' (binop (\<lambda>x y. x - y) s c) c)
      else if opc = 136 then Inr (count ''mul'' (binop (\<lambda>x y. x * y) s c) c)
      else if opc = 140 then then_count ''div'' c (divop (\<lambda>x y. x div y) s c)
      else if opc = 144 then then_count ''rem'' c (divop (\<lambda>x y. x mod y) s c)
      else if opc = 148 then
        Inr (count ''pop''
          (if length (colorstack s c) \<ge> 1 then set_stack s c (butlast (colorstack s c)) else s) c)
      else if opc = 152 then
        Inr (count ''swap''
          (if length (colorstack s c) \<ge> 2
           then set_stack s c (butlast (butlast (colorstack s c))
                               @ [last (colorstack s c), last (butlast (colorstack s c))])
           else s) c)
      else if opc = 156 then
        Inr (count ''dup''
          (if length (colorstack s c) \<ge> 1
           then set_stack s c (colorstack s c @ [last (colorstack s c)]) else s) c)
      else if opc = 160 then then_count ''rot'' c (rot s c)
      else if opc = 164 then Inr (count ''not'' (unop (\<lambda>x. not x) s c) c)
      else if opc = 168 then Inr (count ''or'' (binop (\<lambda>x y. or x y) s c) c)
      else if opc = 172 then Inr (count ''and'' (binop (\<lambda>x y. and x y) s c) c)
      else if opc = 176 then Inr (count ''gt'' (binop (\<lambda>x y. if x > y then 1 else 0) s c) c)
      else if opc = 180 then Inr (count ''eq'' (binop (\<lambda>x y. if x = y then 1 else 0) s c) c)
      else if opc = 184 then Inr (count ''lt'' (binop (\<lambda>x y. if x < y then 1 else 0) s c) c)
      else if opc = 196 then Inr (count ''jmpz'' (jump (\<lambda>v. v = 0) s c) c)
      else if opc = 200 then Inr (count ''jmpnz'' (jump (\<lambda>v. v \<noteq> 0) s c) c)
      else if opc = 204 then then_count ''outc'' c (outc s c)
      else if opc = 208 then then_count ''inc'' c (inc s c)
      else if opc = 212 then Inr (count ''outi'' (outi s c) c)
      else if opc = 216 then then_count ''ini'' c (ini s c)
      else if opc = 220 then Inr (count ''pusha'' (pusha s c) c)
      else if opc = 224 then Inr (count ''waita'' (waita s c) c)
      else if opc = 228 then Inr (count ''neg'' (unop (\<lambda>x. 0 - x) s c) c)
      else if opc = 232 then then_count ''shl'' c (shift_left s c)
      else if opc = 236 then then_count ''shr'' c (shift_left s c)
      else Inr ((mesg (InvalidInstruction opc c (colorip s c)) s)
                  \<lparr>colorstate := (colorstate s)(c := HALTED)\<rparr>))"

definition colorexec :: "vm \<Rightarrow> color \<Rightarrow> error + vm" where
  "colorexec s c =
     (case py_index (colorcode s c) (colorip s c) of
        Inl e \<Rightarrow> Inl e
      | Inr opc \<Rightarrow> exec_op opc s c)"

section \<open>The main sequence\<close>

text \<open>\<^verbatim>\<open>colorip[color] += 1\<close>, then \<^verbatim>\<open>if colorip[color] == size: colorstate[color] = OVERRUN\<close>.\<close>

definition advance :: "vm \<Rightarrow> color \<Rightarrow> vm" where
  "advance s c =
     (let s1 = s\<lparr>colorip := (colorip s)(c := colorip s c + 1)\<rparr> in
      if colorip s1 c = size s1 then s1\<lparr>colorstate := (colorstate s1)(c := OVERRUN)\<rparr> else s1)"

text \<open>
  The body of \<^verbatim>\<open>for color in colors\<close>. The argument of the first \<^verbatim>\<open>debuglog\<close> is
  formatted whether or not debugging is on, so the code array is indexed for every thread
  that is not in \<^verbatim>\<open>OVERRUN\<close>. In the \<^verbatim>\<open>elif\<close>, \<^verbatim>\<open>waitstack[0]\<close> is read only when
  the state is \<^verbatim>\<open>AWAIT\<close>.
\<close>

definition sched_color :: "vm \<Rightarrow> color \<Rightarrow> error + vm" where
  "sched_color s c =
     (if colorstate s c \<noteq> OVERRUN \<and> py_index (colorcode s c) (colorip s c) = Inl IndexError
        then Inl IndexError
      else if colorstate s c = RUNNING then
        (case py_index (colorcode s c) (colorip s c) of
           Inl e \<Rightarrow> Inl e
         | Inr opc \<Rightarrow>
             if opc = 188 then Inr (advance (count ''nop'' s c) c)
             else if opc = 192 then
               Inr ((count ''halt'' s c)\<lparr>colorstate := (colorstate s)(c := HALTED)\<rparr>)
             else (case colorexec s c of
                     Inl e \<Rightarrow> Inl e
                   | Inr s1 \<Rightarrow> Inr (advance s1 c)))
      else if colorstate s c = AWAIT then
        (case waitstack s of
           [] \<Rightarrow> Inl IndexError
         | w # ws \<Rightarrow>
             if w = c then
               (let s1 = count ''waita'' s c in
                if length (astack s1) \<ge> 1
                then (case colorexec (s1\<lparr>waitstack := ws\<rparr>) c of
                        Inl e \<Rightarrow> Inl e
                      | Inr s2 \<Rightarrow> Inr (advance s2 c))
                else Inr s1)
             else Inr s)
      else Inr s)"

fun for_colors :: "color list \<Rightarrow> vm \<Rightarrow> error + vm" where
  "for_colors [] s = Inr s"
| "for_colors (c # cs) s =
     (case sched_color s c of Inl e \<Rightarrow> Inl e | Inr s1 \<Rightarrow> for_colors cs s1)"

text \<open>
  One iteration of \<^verbatim>\<open>while not terminate\<close>: the pass over the colours, then the count of
  running and waiting threads. The result carries the new value of \<^verbatim>\<open>terminate\<close>.
\<close>

definition iteration :: "vm \<Rightarrow> error + (bool \<times> vm)" where
  "iteration s =
     (case for_colors colors s of
        Inl e \<Rightarrow> Inl e
      | Inr s1 \<Rightarrow>
          (let tmprun = length (filter (\<lambda>c. colorstate s1 c = RUNNING) colors);
               tmpawait = length (filter (\<lambda>c. colorstate s1 c = AWAIT) colors)
           in if tmprun = 0
              then (if tmpawait \<noteq> 0 then Inr (True, mesg ThreadDeadlock s1)
                    else Inr (True, mesg ThreadsHalted s1))
              else Inr (False, s1)))"

text \<open>
  The loop may run forever (a program can jump backwards), so it is given fuel: \<open>None\<close>
  means that the loop has not ended within that many iterations.
\<close>

fun main_sequence :: "nat \<Rightarrow> vm \<Rightarrow> (error + vm) option" where
  "main_sequence 0 s = None"
| "main_sequence (Suc n) s =
     (case iteration s of
        Inl e \<Rightarrow> Some (Inl e)
      | Inr (terminate, s1) \<Rightarrow> if terminate then Some (Inr s1) else main_sequence n s1)"

section \<open>The image decoder\<close>

text \<open>
  The pixel reader is the imaging library: an RGB image of \<open>imgxsize\<close> by \<open>imgysize\<close>
  pixels, whose \<^verbatim>\<open>getpixel\<close> raises \<^verbatim>\<open>IndexError\<close> outside the image. The decoder never
  forms a negative coordinate. Band values are \<open>0..255\<close> in the library; the model only
  uses that they are not negative.
\<close>

record image =
  imgxsize :: int
  imgysize :: int
  pixel :: "int \<times> int \<Rightarrow> nat \<times> nat \<times> nat"

definition getpixel :: "image \<Rightarrow> int \<times> int \<Rightarrow> error + nat \<times> nat \<times> nat" where
  "getpixel img xy =
     (if 0 \<le> fst xy \<and> fst xy < imgxsize img \<and> 0 \<le> snd xy \<and> snd xy < imgysize img
      then Inr (pixel img xy) else Inl IndexError)"

type_synonym codes = "int list \<times> int list \<times> int list"

text \<open>\<^verbatim>\<open>while i <= size\<close>: reading the pixels into the code arrays.\<close>

function readloop :: "image \<Rightarrow> int \<Rightarrow> int \<Rightarrow> int \<Rightarrow> int \<Rightarrow> int \<Rightarrow> codes \<Rightarrow> error + codes" where
  "readloop img cellsize sz i x y cs =
     (if i \<le> sz then
        (case getpixel img (x, y) of
           Inl e \<Rightarrow> Inl e
         | Inr (colorr, colorg, colorb) \<Rightarrow>
             (let cs1 = (fst cs @ [int colorr], fst (snd cs) @ [int colorg],
                         snd (snd cs) @ [int colorb]);
                  x1 = x + cellsize
              in if x1 > imgxsize img - 1
                 then readloop img cellsize sz (i + 1) 0 (y + cellsize) cs1
                 else readloop img cellsize sz (i + 1) x1 y cs1))
      else Inr cs)"
  by pat_completeness auto
termination
  by (relation "measure (\<lambda>(img, cellsize, sz, i, x, y, cs). nat (sz + 1 - i))") auto

text \<open>
  The header. A failure is the exception or \<^verbatim>\<open>exit()\<close> together with the messages
  printed before it (none when \<^verbatim>\<open>args.silent\<close>); success is the cell size and \<^verbatim>\<open>size\<close>.
\<close>

definition V_MAJOR :: nat where
  "V_MAJOR = 1"

definition V_MINOR :: nat where
  "V_MINOR = 0"

definition read_header :: "bool \<Rightarrow> image \<Rightarrow> error \<times> message list + nat \<times> int" where
  "read_header quiet img =
     (case getpixel img (0, 0) of
        Inl e \<Rightarrow> Inl (e, [])
      | Inr (majorver, minorver, cellsize) \<Rightarrow>
          if majorver > V_MAJOR \<or> (majorver = V_MAJOR \<and> minorver > V_MINOR)
          then Inl (SystemExit, if quiet then [] else [InvalidVersion majorver minorver])
          else
            (case getpixel img (if imgxsize img = int cellsize then (0, int cellsize)
                                else (int cellsize, 0)) of
               Inl e \<Rightarrow> Inl (e, [])
             | Inr (size3, size2, size1) \<Rightarrow>
                 (let sz = int size3 * 256 * 256 + int size2 * 256 + int size1 in
                  if sz = 0 then Inl (SystemExit, if quiet then [] else [LengthZero])
                  else Inr (cellsize, sz))))"

text \<open>The \<^verbatim>\<open>match size\<close> that places the first program cell (\<open>size\<close> is not 0 here).\<close>

definition first_cell :: "int \<Rightarrow> int \<Rightarrow> int \<times> int" where
  "first_cell cellsize sz =
     (if sz = 1 then (0, 2 * cellsize)
      else if 2 \<le> sz \<and> sz \<le> 6 then (0, cellsize)
      else (2 * cellsize, 0))"

text \<open>The decoder: header, start position, then the loop from \<open>i = 1\<close>.\<close>

definition decode :: "bool \<Rightarrow> image \<Rightarrow> error \<times> message list + int \<times> codes" where
  "decode quiet img =
     (case read_header quiet img of
        Inl f \<Rightarrow> Inl f
      | Inr (cellsize, sz) \<Rightarrow>
          (case readloop img (int cellsize) sz 1
                  (fst (first_cell (int cellsize) sz)) (snd (first_cell (int cellsize) sz))
                  ([], [], []) of
             Inl e \<Rightarrow> Inl (e, [])
           | Inr cs \<Rightarrow> Inr (sz, cs)))"

text \<open>The module-level initial values, with every thread set to \<^verbatim>\<open>RUNNING\<close> after loading.\<close>

definition initial_vm :: "bool \<Rightarrow> string list \<Rightarrow> int \<Rightarrow> codes \<Rightarrow> vm" where
  "initial_vm quiet input sz cs =
     \<lparr>colorstack = (\<lambda>c. []),
      astack = [],
      colorcode = (\<lambda>c. case c of R \<Rightarrow> fst cs | G \<Rightarrow> fst (snd cs) | B \<Rightarrow> snd (snd cs)),
      colorstate = (\<lambda>c. RUNNING),
      colorip = (\<lambda>c. 0),
      colorstat = (\<lambda>c k. 0),
      waitstack = [],
      size = sz,
      silent = quiet,
      messages = [],
      stdin = input,
      stdout = []\<rparr>"

section \<open>Example states\<close>

text \<open>A one-cell program with \<^verbatim>\<open>shr\<close> on the red thread, whose stack holds 8 under 1.\<close>

definition shr_state :: vm where
  "shr_state = set_stack (initial_vm False [] 1 ([236], [188], [188])) R [8, 1]"

text \<open>\<^verbatim>\<open>inc\<close> on the red thread, with one empty line on standard input.\<close>

definition inc_state :: vm where
  "inc_state = initial_vm False [[]] 1 ([208], [188], [188])"

text \<open>\<^verbatim>\<open>div\<close> then \<^verbatim>\<open>halt\<close> on the red thread, with 5 on top of 0.\<close>

definition div_state :: vm where
  "div_state = set_stack (initial_vm False [] 2 ([140, 192], [188, 192], [188, 192])) R [0, 5]"

text \<open>A one-cell program whose red byte, 129, is not assigned.\<close>

definition invalid_last :: vm where
  "invalid_last = initial_vm False [] 1 ([129], [188], [188])"

text \<open>
  \<^verbatim>\<open>jmpz\<close> at the start of a three-cell program: with the value 0 on top of the address
  7 (out of range), and with 0 on top of the address 1 (in range).
\<close>

definition jmpz_state :: vm where
  "jmpz_state =
     set_stack (initial_vm False [] 3 ([196, 188, 188], [188, 188, 188], [188, 188, 188])) R [7, 0]"

definition jmpz_near :: vm where
  "jmpz_near =
     set_stack (initial_vm False [] 3 ([196, 188, 188], [188, 188, 188], [188, 188, 188])) R [1, 0]"

text \<open>
  The opcodes of \<^verbatim>\<open>colorexec\<close> whose body is under a guard \<^verbatim>\<open>len(stack) >= n\<close>, with the
  counter they increment and that \<open>n\<close>. For \<^verbatim>\<open>rot\<close> the guard is on the count alone; the
  depth under the count is checked after the count has been popped.
\<close>

definition guarded :: "(int \<times> string \<times> nat) list" where
  "guarded =
     [(128, ''add'', 2), (132, ''sub'', 2), (136, ''mul'', 2), (140, ''div'', 2),
      (144, ''rem'', 2), (148, ''pop'', 1), (152, ''swap'', 2), (156, ''dup'', 1),
      (160, ''rot'', 1), (164, ''not'', 1), (168, ''or'', 2), (172, ''and'', 2),
      (176, ''gt'', 2), (180, ''eq'', 2), (184, ''lt'', 2), (196, ''jmpz'', 2),
      (200, ''jmpnz'', 2), (204, ''outc'', 1), (212, ''outi'', 1), (220, ''pusha'', 1),
      (228, ''neg'', 1), (232, ''shl'', 2), (236, ''shr'', 2)]"

text \<open>\<^verbatim>\<open>rot\<close> with the count 5 on top of a single element, and \<^verbatim>\<open>add\<close> on an empty stack.\<close>

definition rot_state :: vm where
  "rot_state = set_stack (initial_vm False [] 2 ([160, 192], [188, 192], [188, 192])) R [7, 5]"

definition add_state :: vm where
  "add_state = initial_vm False [] 2 ([128, 192], [188, 192], [188, 192])"

section \<open>Observing a run\<close>

text \<open>
  The guard of the resumption path in the main sequence: the thread is in \<^verbatim>\<open>AWAIT\<close>, it
  is \<^verbatim>\<open>waitstack[0]\<close>, and the alpha stack holds a value. Under this guard the scheduler
  dequeues the thread and calls \<^verbatim>\<open>colorexec\<close> on its \<^verbatim>\<open>waita\<close>.
\<close>

definition await_resume :: "vm \<Rightarrow> color \<Rightarrow> bool" where
  "await_resume s c =
     (colorstate s c = AWAIT \<and> (case waitstack s of [] \<Rightarrow> False | w # ws \<Rightarrow> w = c)
      \<and> length (astack s) \<ge> 1)"

text \<open>The threads that take the resumption path during one pass, in the order of the pass.\<close>

fun resumed :: "color list \<Rightarrow> vm \<Rightarrow> color list" where
  "resumed [] s = []"
| "resumed (c # cs) s =
     (if await_resume s c then [c] else [])
     @ (case sched_color s c of Inl e \<Rightarrow> [] | Inr s1 \<Rightarrow> resumed cs s1)"

text \<open>
  The states of the main loop: the state before the first iteration, then the state after
  each iteration, for at most \<open>n\<close> iterations.
\<close>

fun trace :: "nat \<Rightarrow> vm \<Rightarrow> vm list" where
  "trace 0 s = [s]"
| "trace (Suc n) s =
     s # (case iteration s of
            Inl e \<Rightarrow> []
          | Inr (terminate, s1) \<Rightarrow> if terminate then [s1] else trace n s1)"

text \<open>
  Following the specification's words, "\<^verbatim>\<open>waita\<close> is counted once per logical execution
  (the resume step)": a scheduler step of a thread completes a \<^verbatim>\<open>waita\<close> when the thread
  is at a \<^verbatim>\<open>waita\<close>, the alpha stack holds a value, and the thread is either running or
  resumed from \<^verbatim>\<open>AWAIT\<close>. \<open>spec_waita_count\<close> counts these steps of one thread over the
  first \<open>n\<close> iterations of the main loop.
\<close>

definition completes_waita :: "vm \<Rightarrow> color \<Rightarrow> bool" where
  "completes_waita s c =
     (py_index (colorcode s c) (colorip s c) = Inr 224 \<and> length (astack s) \<ge> 1
      \<and> (colorstate s c = RUNNING \<or> await_resume s c))"

fun logical_pass :: "color \<Rightarrow> color list \<Rightarrow> vm \<Rightarrow> nat" where
  "logical_pass c [] s = 0"
| "logical_pass c (d # ds) s =
     (if d = c \<and> completes_waita s d then 1 else 0)
     + (case sched_color s d of Inl e \<Rightarrow> 0 | Inr s1 \<Rightarrow> logical_pass c ds s1)"

fun spec_waita_count :: "nat \<Rightarrow> color \<Rightarrow> vm \<Rightarrow> nat" where
  "spec_waita_count 0 c s = 0"
| "spec_waita_count (Suc n) c s =
     logical_pass c colors s
     + (case iteration s of
          Inl e \<Rightarrow> 0
        | Inr (terminate, s1) \<Rightarrow> if terminate then 0 else spec_waita_count n c s1)"

text \<open>
  Two programs. In the first, red and blue wait on the alpha stack from the first pass on,
  and green pushes 1 and 2 and then sends both. In the second, red sends 42, green waits for
  it and prints it, blue halts.
\<close>

definition relay_init :: vm where
  "relay_init =
     initial_vm False [] 4 ([224, 192, 192, 192], [1, 2, 220, 220], [224, 192, 192, 192])"

definition rendezvous_init :: vm where
  "rendezvous_init = initial_vm False [] 3 ([42, 220, 192], [224, 212, 192], [192, 192, 192])"

text \<open>Green suspended on its \<^verbatim>\<open>waita\<close>, first in the wait queue, with 42 on the alpha stack.\<close>

definition resume_state :: vm where
  "resume_state =
     (initial_vm False [] 3 ([42, 220, 192], [224, 212, 192], [192, 192, 192]))
       \<lparr>astack := [42], colorstate := (\<lambda>c. RUNNING)(G := AWAIT), waitstack := [G]\<rparr>"

section \<open>Control state\<close>

text \<open>
  \<open>frame s s1\<close>: the step from \<open>s\<close> to \<open>s1\<close> has changed neither the program, nor an
  instruction pointer, nor a thread state, nor the wait queue. \<open>ctl s c s1\<close>: the step
  has changed the instruction pointer and the state of thread \<open>c\<close> only, in the ways that
  \<^verbatim>\<open>colorexec\<close> can.
\<close>

definition frame :: "vm \<Rightarrow> vm \<Rightarrow> bool" where
  "frame s s1 =
     (size s1 = size s \<and> colorcode s1 = colorcode s \<and> colorip s1 = colorip s
      \<and> colorstate s1 = colorstate s \<and> waitstack s1 = waitstack s)"

definition ctl :: "vm \<Rightarrow> color \<Rightarrow> vm \<Rightarrow> bool" where
  "ctl s c s1 =
     (size s1 = size s
      \<and> (\<forall>d. d \<noteq> c \<longrightarrow> colorip s1 d = colorip s d \<and> colorstate s1 d = colorstate s d)
      \<and> (colorip s1 c = colorip s c \<or> colorip s1 c = colorip s c - 1
          \<or> (0 \<le> colorip s1 c + 1 \<and> colorip s1 c + 1 < size s) \<or> colorip s1 c = size s - 1)
      \<and> (colorstate s1 c = colorstate s c \<or> colorstate s1 c = RUNNING
          \<or> colorstate s1 c = AWAIT \<or> colorstate s1 c = HALTED))"

text \<open>The invariant of one thread, and of the machine.\<close>

definition thread_ok :: "vm \<Rightarrow> color \<Rightarrow> bool" where
  "thread_ok s c =
     (0 \<le> colorip s c \<and> colorip s c \<le> size s
      \<and> (colorstate s c = OVERRUN) = (colorip s c = size s))"

definition vm_ok :: "vm \<Rightarrow> bool" where
  "vm_ok s = (thread_ok s R \<and> thread_ok s G \<and> thread_ok s B)"

section \<open>The cell walk\<close>

text \<open>
  The coordinates that the reading loop visits for \<open>n\<close> cells from \<open>(x, y)\<close>: a step of
  \<open>cellsize\<close> to the right, and back to the left edge one cell lower once \<open>x\<close> has passed
  the last column.
\<close>

fun walk :: "int \<Rightarrow> int \<Rightarrow> nat \<Rightarrow> int \<Rightarrow> int \<Rightarrow> (int \<times> int) list" where
  "walk w cellsize 0 x y = []"
| "walk w cellsize (Suc n) x y =
     (x, y) # (if x + cellsize > w - 1 then walk w cellsize n 0 (y + cellsize)
               else walk w cellsize n (x + cellsize) y)"

text \<open>
  An image one pixel wide and two high, with cells of one pixel: version 1.0, and a header
  cell announcing one program cell, which would lie at \<open>(0, 2)\<close>, below the image.
\<close>

definition tiny_image :: image where
  "tiny_image =
     \<lparr>imgxsize = 1, imgysize = 2,
      pixel = (\<lambda>xy. if snd xy = 0 then (1, 0, 1) else (0, 0, 1))\<rparr>"

section \<open>Unfolding the model\<close>

lemmas vm_defs = initial_vm_def set_stack_def colorexec_def py_index_def exec_op_def
  then_count_def count_def sched_color_def advance_def mesg_def colors_def iteration_def

section \<open>The \<^verbatim>\<open>shr\<close> opcode\<close>

text \<open>
  C1 (the opcode \<^verbatim>\<open>0xEC\<close>, \<^verbatim>\<open>shr\<close>, pops the count \<open>s\<close> then the value \<open>v\<close> and
  pushes \<open>v\<close> shifted right by \<open>s\<close>). The source shifts left under \<^verbatim>\<open>shr\<close>: with 8
  under the count 1 the executor leaves 16 on the stack, where a right shift gives 4.
\<close>

theorem shr_shifts_left:
  "(case colorexec shr_state R of Inl e \<Rightarrow> None | Inr s' \<Rightarrow> Some (colorstack s' R)) = Some [16]
   \<and> drop_bit 1 (8 :: int) = 4"
  by (simp add: shr_state_def vm_defs shift_left_def)

section \<open>The \<^verbatim>\<open>inc\<close> opcode\<close>

text \<open>
  C10 (\<^verbatim>\<open>inc\<close>, \<^verbatim>\<open>0xD0\<close>, pushes a code point only when the input line is not empty:
  the first character is indexed with no check, so an empty line raises the out-of-range
  error instead of pushing). With a line available on standard input, the executor either
  raises \<^verbatim>\<open>IndexError\<close>, and then the line is empty, or returns with the code point of the
  first character pushed, and then the line is not empty.
\<close>

theorem inc_needs_nonempty_line:
  assumes "py_index (colorcode s c) (colorip s c) = Inr 208" and "stdin s = line # rest"
  shows "case colorexec s c of
           Inl e \<Rightarrow> e = IndexError \<and> line = []
         | Inr s' \<Rightarrow> line \<noteq> [] \<and> colorstack s' c = colorstack s c @ [int (of_char (hd line))]"
  using assms
  by (cases line)
    (simp_all add: colorexec_def exec_op_def then_count_def inc_def py_index_def count_def
      set_stack_def)

theorem inc_needs_nonempty_line_witness:
  "py_index (colorcode inc_state R) (colorip inc_state R) = Inr 208 \<and> stdin inc_state = [] # []
   \<and> colorexec inc_state R = Inl IndexError"
proof -
  have h1: "py_index (colorcode inc_state R) (colorip inc_state R) = Inr 208"
    by (simp add: inc_state_def initial_vm_def py_index_def)
  have h2: "stdin inc_state = [] # []"
    by (simp add: inc_state_def initial_vm_def)
  from inc_needs_nonempty_line [OF h1 h2]
  have "colorexec inc_state R = Inl IndexError"
    by (cases "colorexec inc_state R") simp_all
  with h1 h2 show ?thesis by simp
qed

section \<open>Division by zero\<close>

text \<open>
  C3 as stated (\<^verbatim>\<open>div\<close> or \<^verbatim>\<open>rem\<close> with a zero divisor halts the thread with a message
  and the other threads continue; the whole machine is not aborted). On the red thread with
  5 on top of 0, the step, the whole pass and the main loop end in the uncaught
  \<^verbatim>\<open>ZeroDivisionError\<close>: no thread is halted and no thread continues.
\<close>

theorem div_zero_aborts_vm:
  "sched_color div_state R = Inl ZeroDivisionError \<and> iteration div_state = Inl ZeroDivisionError
   \<and> main_sequence 1 div_state = Some (Inl ZeroDivisionError)"
  by (simp add: div_state_def vm_defs divop_def)

text \<open>
  C3 as amended: for a running thread whose stack has at least two elements, the second
  from the top (the divisor) zero, \<^verbatim>\<open>div\<close> (\<^verbatim>\<open>0x8C\<close>) and \<^verbatim>\<open>rem\<close> (\<^verbatim>\<open>0x90\<close>) raise
  \<^verbatim>\<open>ZeroDivisionError\<close>, which nothing catches: the executor, the scheduler step of that
  thread and the pass that reaches it all end in the exception.
\<close>

theorem div_rem_zero_raises:
  assumes "colorstate s c = RUNNING"
    and "py_index (colorcode s c) (colorip s c) = Inr opc"
    and "opc = 140 \<or> opc = 144"
    and "length (colorstack s c) \<ge> 2"
    and "last (butlast (colorstack s c)) = 0"
  shows "colorexec s c = Inl ZeroDivisionError \<and> sched_color s c = Inl ZeroDivisionError
     \<and> for_colors (c # cs) s = Inl ZeroDivisionError"
proof -
  have e: "colorexec s c = Inl ZeroDivisionError"
    using assms by (auto simp add: colorexec_def exec_op_def then_count_def divop_def)
  have "sched_color s c = Inl ZeroDivisionError"
    using assms e by (auto simp add: sched_color_def)
  with e show ?thesis by simp
qed

theorem div_rem_zero_raises_witness:
  "colorstate div_state R = RUNNING
   \<and> py_index (colorcode div_state R) (colorip div_state R) = Inr 140
   \<and> length (colorstack div_state R) \<ge> 2
   \<and> last (butlast (colorstack div_state R)) = 0
   \<and> colorexec div_state R = Inl ZeroDivisionError
   \<and> sched_color div_state R = Inl ZeroDivisionError
   \<and> for_colors (R # [G, B]) div_state = Inl ZeroDivisionError"
proof -
  have h1: "colorstate div_state R = RUNNING"
    by (simp add: div_state_def initial_vm_def set_stack_def)
  have h2: "py_index (colorcode div_state R) (colorip div_state R) = Inr 140"
    by (simp add: div_state_def initial_vm_def set_stack_def py_index_def)
  have h3: "(140 :: int) = 140 \<or> (140 :: int) = 144"
    by simp
  have h4: "length (colorstack div_state R) \<ge> 2"
    by (simp add: div_state_def initial_vm_def set_stack_def)
  have h5: "last (butlast (colorstack div_state R)) = 0"
    by (simp add: div_state_def initial_vm_def set_stack_def)
  from div_rem_zero_raises [OF h1 h2 h3 h4 h5, of "[G, B]"] h1 h2 h4 h5
  show ?thesis by blast
qed

section \<open>Invalid opcodes\<close>

text \<open>
  C6 (an unassigned byte emits a message and leaves the executing thread \<^verbatim>\<open>HALTED\<close>, at
  every position, the last program index included). With the unassigned byte 129 in the
  only cell of the program, the executor prints the message and sets \<^verbatim>\<open>HALTED\<close>, and the
  scheduler step that called it then advances the instruction pointer to \<^verbatim>\<open>size\<close> and
  overwrites the state with \<^verbatim>\<open>OVERRUN\<close>.
\<close>

theorem invalid_at_last_index_overruns:
  "(case colorexec invalid_last R of
      Inl e \<Rightarrow> None | Inr s' \<Rightarrow> Some (colorstate s' R, messages s'))
     = Some (HALTED, [InvalidInstruction 129 R 0])
   \<and> (case sched_color invalid_last R of
        Inl e \<Rightarrow> None | Inr s' \<Rightarrow> Some (colorstate s' R, messages s'))
     = Some (OVERRUN, [InvalidInstruction 129 R 0])"
  by (simp add: invalid_last_def vm_defs)

section \<open>The \<^verbatim>\<open>jmpz\<close> opcode\<close>

text \<open>
  C8 as stated (with \<open>v = 0\<close> and the address out of range, the instruction pointer is set
  to \<open>size - 1\<close> and the thread goes to \<^verbatim>\<open>OVERRUN\<close> on the next step). In a three-cell
  program, \<^verbatim>\<open>jmpz\<close> with 0 on top of the address 7 ends its own scheduler step with the
  instruction pointer at 3, not 2, and with the thread already in \<^verbatim>\<open>OVERRUN\<close>.
\<close>

theorem jmpz_out_of_range_overruns_at_once:
  "(case sched_color jmpz_state R of
      Inl e \<Rightarrow> None | Inr s' \<Rightarrow> Some (colorip s' R, colorstate s' R))
     = Some (3, OVERRUN) \<and> size jmpz_state - 1 = 2"
  by (simp add: jmpz_state_def vm_defs jump_def)

text \<open>
  C8 as amended: for a running thread whose stack ends with \<open>addr\<close> under \<open>v\<close>, the
  scheduler step on \<^verbatim>\<open>jmpz\<close> (\<^verbatim>\<open>0xC4\<close>) pops both. When \<open>v = 0\<close> and
  \<open>0 \<le> addr < size\<close> the instruction pointer after the step is \<open>addr\<close>; when \<open>v = 0\<close> and
  \<open>addr\<close> is out of range it is \<open>size\<close>, and the thread is in \<^verbatim>\<open>OVERRUN\<close> at the end of
  this same step; when \<open>v \<noteq> 0\<close> it has advanced by one. The thread is in \<^verbatim>\<open>OVERRUN\<close>
  exactly when the new instruction pointer is \<open>size\<close>, and \<^verbatim>\<open>RUNNING\<close> otherwise.
\<close>

theorem jmpz_step:
  assumes "colorstate s c = RUNNING"
    and "py_index (colorcode s c) (colorip s c) = Inr 196"
    and "colorstack s c = st @ [addr, v]"
  shows "\<exists>s'. sched_color s c = Inr s' \<and> colorstack s' c = st
     \<and> colorip s' c = (if v = 0 then (if 0 \<le> addr \<and> addr < size s then addr else size s)
                       else colorip s c + 1)
     \<and> colorstate s' c = (if colorip s' c = size s then OVERRUN else RUNNING)"
  using assms
  by (simp add: colorexec_def exec_op_def sched_color_def jump_def count_def set_stack_def
      advance_def Let_def butlast_append)

theorem jmpz_step_witness:
  "colorstate jmpz_near R = RUNNING
   \<and> py_index (colorcode jmpz_near R) (colorip jmpz_near R) = Inr 196
   \<and> colorstack jmpz_near R = [] @ [1, 0]
   \<and> (\<exists>s'. sched_color jmpz_near R = Inr s' \<and> colorstack s' R = []
         \<and> colorip s' R = 1 \<and> colorstate s' R = RUNNING)"
proof -
  have h1: "colorstate jmpz_near R = RUNNING"
    by (simp add: jmpz_near_def initial_vm_def set_stack_def)
  have h2: "py_index (colorcode jmpz_near R) (colorip jmpz_near R) = Inr 196"
    by (simp add: jmpz_near_def initial_vm_def set_stack_def py_index_def)
  have h3: "colorstack jmpz_near R = [] @ [1, 0]"
    by (simp add: jmpz_near_def initial_vm_def set_stack_def)
  have sz: "size jmpz_near = 3"
    by (simp add: jmpz_near_def initial_vm_def set_stack_def)
  from jmpz_step [OF h1 h2 h3] obtain s' where
    "sched_color jmpz_near R = Inr s'" "colorstack s' R = []"
    "colorip s' R = 1" "colorstate s' R = RUNNING"
    by (auto simp add: sz)
  with h1 h2 h3 show ?thesis by blast
qed

section \<open>Stack underflow\<close>

text \<open>
  C4 as stated (an opcode executed on a stack shallower than its arity, \<^verbatim>\<open>rot\<close> with
  its arity of one plus the count included, leaves the stack unchanged). \<^verbatim>\<open>rot\<close> with the
  count 5 on top of one element has depth 2 below its arity 6, and the step removes the
  count from the stack.
\<close>

theorem rot_underflow_pops_count:
  "(case sched_color rot_state R of Inl e \<Rightarrow> None | Inr s' \<Rightarrow> Some (colorstack s' R)) = Some [7]
   \<and> colorstack rot_state R = [7, 5]"
  by (simp add: rot_state_def vm_defs rot_def)

lemma rot_underflow:
  assumes "colorstack s c = [] \<or> int (length (colorstack s c)) < 1 + last (colorstack s c)"
  shows "rot s c = Inr (set_stack s c (butlast (colorstack s c)))"
  using assms
  by (cases "colorstack s c" rule: rev_cases)
    (auto simp add: rot_def set_stack_def Let_def fun_upd_idem)

lemma exec_underflow:
  assumes "(opc, k, n) \<in> set guarded"
    and "if opc = 160 \<and> colorstack s c \<noteq> []
         then int (length (colorstack s c)) < 1 + last (colorstack s c)
         else length (colorstack s c) < n"
  shows "exec_op opc s c =
    Inr (count k (if opc = 160 then set_stack s c (butlast (colorstack s c)) else s) c)"
proof (cases "opc = 160")
  case True
  with assms have "rot s c = Inr (set_stack s c (butlast (colorstack s c)))"
    by (intro rot_underflow) (auto simp add: guarded_def split: if_splits)
  with True assms(1) show ?thesis
    by (auto simp add: exec_op_def then_count_def guarded_def)
next
  case False
  from False assms show ?thesis
    unfolding guarded_def
    apply simp
    apply (elim disjE)
    apply (simp_all add: exec_op_def binop_def unop_def divop_def jump_def outc_def outi_def
      pusha_def shift_left_def then_count_def Let_def)
    done
qed

text \<open>
  C4 as amended: for a running thread and an opcode with a depth guard, executed on a stack
  shallower than the guard asks (for \<^verbatim>\<open>rot\<close> on a non-empty stack: shallower than one
  plus the count on top), the scheduler step does not raise, increments the counter of that
  opcode by one and advances the instruction pointer by one; the stacks of the other threads
  and the alpha stack are unchanged; the thread's own stack is unchanged, except under
  \<^verbatim>\<open>rot\<close>, which has popped the count.
\<close>

theorem underflow_step:
  assumes "colorstate s c = RUNNING"
    and "py_index (colorcode s c) (colorip s c) = Inr opc"
    and "(opc, k, n) \<in> set guarded"
    and "if opc = 160 \<and> colorstack s c \<noteq> []
         then int (length (colorstack s c)) < 1 + last (colorstack s c)
         else length (colorstack s c) < n"
  shows "\<exists>s'. sched_color s c = Inr s'
     \<and> colorstack s' =
         (colorstack s)(c := if opc = 160 then butlast (colorstack s c) else colorstack s c)
     \<and> astack s' = astack s
     \<and> colorstat s' c k = colorstat s c k + 1
     \<and> colorip s' c = colorip s c + 1"
proof -
  from assms(3) have "opc \<noteq> 188" "opc \<noteq> 192"
    by (auto simp add: guarded_def)
  with assms(1,2) exec_underflow [OF assms(3,4)] show ?thesis
    by (simp add: sched_color_def colorexec_def advance_def count_def set_stack_def Let_def)
qed

theorem underflow_step_witness:
  "colorstate add_state R = RUNNING
   \<and> py_index (colorcode add_state R) (colorip add_state R) = Inr 128
   \<and> (128, ''add'', 2) \<in> set guarded
   \<and> length (colorstack add_state R) < 2
   \<and> (\<exists>s'. sched_color add_state R = Inr s' \<and> colorstack s' R = []
         \<and> colorstat s' R ''add'' = 1 \<and> colorip s' R = 1)"
proof -
  have h1: "colorstate add_state R = RUNNING"
    by (simp add: add_state_def initial_vm_def)
  have h2: "py_index (colorcode add_state R) (colorip add_state R) = Inr 128"
    by (simp add: add_state_def initial_vm_def py_index_def)
  have h3: "(128, ''add'', 2) \<in> set guarded"
    by (simp add: guarded_def)
  have h4: "length (colorstack add_state R) < 2"
    by (simp add: add_state_def initial_vm_def)
  have h4': "if (128 :: int) = 160 \<and> colorstack add_state R \<noteq> []
         then int (length (colorstack add_state R)) < 1 + last (colorstack add_state R)
         else length (colorstack add_state R) < 2"
    using h4 by simp
  have v: "colorstack add_state R = []" "colorstat add_state R ''add'' = 0" "colorip add_state R = 0"
    by (simp_all add: add_state_def initial_vm_def)
  from underflow_step [OF h1 h2 h3 h4'] obtain s' where
    "sched_color add_state R = Inr s'" "colorstack s' R = []"
    "colorstat s' R ''add'' = 1" "colorip s' R = 1"
    by (auto simp add: v)
  with h1 h2 h3 h4 show ?thesis by blast
qed

lemmas run_defs = vm_defs waita_def pusha_def outi_def await_resume_def completes_waita_def

section \<open>The wait queue\<close>

text \<open>
  C7 as stated (in one pass at most one thread, the head of the wait queue at the start of
  the pass, consumes from the alpha stack on the resumption path). In the relay program the
  fourth pass starts with red and blue waiting, red first in the queue, and the value 2 on
  the alpha stack; in that pass red is resumed, green sends 1, and blue, now first in the
  queue, is resumed too.
\<close>

theorem two_channels_resume_in_one_pass:
  "(case trace (Suc (Suc (Suc 0))) relay_init of
      [s0, s1, s2, s3] \<Rightarrow> Some (waitstack s3, astack s3, resumed colors s3)
    | _ \<Rightarrow> None) = Some ([R, B], [2], [R, B])"
  by (simp add: relay_init_def run_defs)

text \<open>
  C7 as amended: the scheduler step of a thread suspended on \<^verbatim>\<open>waita\<close> consumes from the
  alpha stack exactly when, at the moment the thread is visited, it is first in the wait
  queue and the alpha stack is not empty; it then moves one value, the top of the alpha
  stack, to its own stack and leaves the queue. Otherwise the alpha stack, the thread
  stacks and the queue are unchanged. The head of the queue is read at each visit, not once
  per pass, and the step raises only on an empty queue.
\<close>

theorem await_step:
  assumes "colorstate s c = AWAIT"
    and "py_index (colorcode s c) (colorip s c) = Inr 224"
  shows "case sched_color s c of
           Inl e \<Rightarrow> e = IndexError \<and> waitstack s = []
         | Inr s' \<Rightarrow>
             if await_resume s c
             then astack s' = butlast (astack s)
               \<and> colorstack s' = (colorstack s)(c := colorstack s c @ [last (astack s)])
               \<and> waitstack s' = tl (waitstack s)
             else astack s' = astack s \<and> colorstack s' = colorstack s
               \<and> waitstack s' = waitstack s"
  using assms
  by (cases "waitstack s")
    (auto simp add: sched_color_def await_resume_def colorexec_def exec_op_def waita_def
      count_def set_stack_def advance_def Let_def)

theorem await_step_witness:
  "colorstate resume_state G = AWAIT
   \<and> py_index (colorcode resume_state G) (colorip resume_state G) = Inr 224
   \<and> (\<exists>s'. sched_color resume_state G = Inr s' \<and> astack s' = []
         \<and> colorstack s' G = [42] \<and> waitstack s' = [])"
proof -
  have h1: "colorstate resume_state G = AWAIT"
    by (simp add: resume_state_def initial_vm_def)
  have h2: "py_index (colorcode resume_state G) (colorip resume_state G) = Inr 224"
    by (simp add: resume_state_def initial_vm_def py_index_def)
  have v: "await_resume resume_state G" "astack resume_state = [42]"
    "colorstack resume_state G = []" "waitstack resume_state = [G]"
    by (simp_all add: resume_state_def initial_vm_def await_resume_def)
  from await_step [OF h1 h2] obtain s' where
    "sched_color resume_state G = Inr s'" "astack s' = []"
    "colorstack s' G = [42]" "waitstack s' = []"
    by (cases "sched_color resume_state G") (auto simp add: v)
  with h1 h2 show ?thesis by blast
qed

section \<open>The \<^verbatim>\<open>waita\<close> counter\<close>

text \<open>
  C2 as stated (the counter \<^verbatim>\<open>waita\<close> of a thread is the number of its logical
  executions of \<^verbatim>\<open>waita\<close>, a suspension followed by a resumption counting once). In the
  rendezvous program green executes one \<^verbatim>\<open>waita\<close>, suspended in the first pass and resumed
  in the second; the run ends with 42 printed and the counter at 3.
\<close>

theorem waita_counted_three_times:
  "(case main_sequence (Suc (Suc (Suc (Suc (Suc 0))))) rendezvous_init of
      Some (Inr t) \<Rightarrow> Some (colorstat t G ''waita'', stdout t)
    | _ \<Rightarrow> None) = Some (3, [PrintInt 42])
   \<and> spec_waita_count (Suc (Suc (Suc (Suc (Suc 0))))) G rendezvous_init = 1"
  by (simp add: rendezvous_init_def run_defs)

text \<open>
  C2 as amended: a scheduler step of a thread at a \<^verbatim>\<open>waita\<close> adds to the counter 1 when
  the thread is running (whether it consumes or suspends), nothing when it waits and is not
  first in the wait queue, 1 when it waits first in the queue and the alpha stack is empty,
  and 2 when it waits first in the queue and is resumed.
\<close>

theorem waita_counting:
  assumes "py_index (colorcode s c) (colorip s c) = Inr 224"
    and "colorstate s c = RUNNING \<or> (colorstate s c = AWAIT \<and> waitstack s \<noteq> [])"
  shows "\<exists>s'. sched_color s c = Inr s'
     \<and> colorstat s' c ''waita'' = colorstat s c ''waita''
         + (if colorstate s c = RUNNING then 1
            else if hd (waitstack s) \<noteq> c then 0
            else if astack s = [] then 1 else 2)"
  using assms
  by (cases "waitstack s")
    (auto simp add: sched_color_def colorexec_def exec_op_def waita_def
      count_def set_stack_def advance_def Let_def Suc_le_eq)

theorem waita_counting_witness:
  "py_index (colorcode resume_state G) (colorip resume_state G) = Inr 224
   \<and> colorstate resume_state G = AWAIT \<and> waitstack resume_state \<noteq> []
   \<and> (\<exists>s'. sched_color resume_state G = Inr s' \<and> colorstat s' G ''waita'' = 2)"
proof -
  have h1: "py_index (colorcode resume_state G) (colorip resume_state G) = Inr 224"
    by (simp add: resume_state_def initial_vm_def py_index_def)
  have h2: "colorstate resume_state G = AWAIT" "waitstack resume_state \<noteq> []"
    by (simp_all add: resume_state_def initial_vm_def)
  then have h2': "colorstate resume_state G = RUNNING
      \<or> (colorstate resume_state G = AWAIT \<and> waitstack resume_state \<noteq> [])"
    by simp
  have v: "hd (waitstack resume_state) = G" "astack resume_state = [42]"
    "colorstat resume_state G ''waita'' = 0"
    by (simp_all add: resume_state_def initial_vm_def)
  from waita_counting [OF h1 h2'] obtain s' where
    "sched_color resume_state G = Inr s'" "colorstat s' G ''waita'' = 2"
    by (auto simp add: v h2)
  with h1 h2 show ?thesis by blast
qed

section \<open>The instruction pointer invariant\<close>

lemma frame_refl [simp]: "frame s s"
  by (simp add: frame_def)

lemma frame_count [simp]: "frame s (count k s1 c) = frame s s1"
  by (simp add: frame_def count_def)

lemma frame_set_stack [simp]: "frame s (set_stack s1 c xs) = frame s s1"
  by (simp add: frame_def set_stack_def)

lemma frame_io [simp]:
  "frame s (s1\<lparr>stdout := out\<rparr>) = frame s s1"
  "frame s (s1\<lparr>stdin := inp\<rparr>) = frame s s1"
  "frame s (s1\<lparr>astack := al\<rparr>) = frame s s1"
  by (simp_all add: frame_def)

lemma frame_binop [simp]: "frame s (binop f s c)"
  by (simp add: binop_def Let_def)

lemma frame_unop [simp]: "frame s (unop f s c)"
  by (simp add: unop_def Let_def)

lemma frame_outi [simp]: "frame s (outi s c)"
  by (simp add: outi_def Let_def)

lemma frame_pusha [simp]: "frame s (pusha s c)"
  by (simp add: pusha_def Let_def)

lemma frame_divop: "divop f s c = Inr s1 \<Longrightarrow> frame s s1"
  by (auto simp add: divop_def Let_def split: if_splits)

lemma frame_rot: "rot s c = Inr s1 \<Longrightarrow> frame s s1"
  by (auto simp add: rot_def Let_def split: if_splits)

lemma frame_outc: "outc s c = Inr s1 \<Longrightarrow> frame s s1"
  by (auto simp add: outc_def Let_def split: if_splits)

lemma frame_inc: "inc s c = Inr s1 \<Longrightarrow> frame s s1"
  by (auto simp add: inc_def Let_def split: if_splits list.splits sum.splits)

lemma frame_ini: "ini s c = Inr s1 \<Longrightarrow> frame s s1"
  by (auto simp add: ini_def Let_def split: if_splits list.splits)

lemma frame_shift_left: "shift_left s c = Inr s1 \<Longrightarrow> frame s s1"
  by (auto simp add: shift_left_def Let_def split: if_splits)

lemma frame_ctl: "frame s s1 \<Longrightarrow> ctl s c s1"
  by (simp add: frame_def ctl_def)

lemma ctl_count [simp]: "ctl s c (count k s1 c') = ctl s c s1"
  by (simp add: ctl_def count_def)

lemma ctl_jump: "ctl s c (jump taken s c)"
  by (simp add: ctl_def jump_def Let_def set_stack_def)

lemma ctl_waita: "ctl s c (waita s c)"
  by (simp add: ctl_def waita_def Let_def set_stack_def)

lemma ctl_invalid: "ctl s c ((mesg m s)\<lparr>colorstate := (colorstate s)(c := HALTED)\<rparr>)"
  by (simp add: ctl_def mesg_def)

lemma ctl_then_count:
  "then_count k c r = Inr s1 \<Longrightarrow> (\<And>s2. r = Inr s2 \<Longrightarrow> frame s s2) \<Longrightarrow> ctl s c s1"
  by (cases r) (auto simp add: then_count_def intro: frame_ctl)

lemma exec_op_ctl:
  assumes "exec_op opc s c = Inr s1"
  shows "ctl s c s1"
  using assms unfolding exec_op_def
  by (auto split: if_splits
      intro: frame_ctl ctl_jump ctl_waita ctl_invalid
      elim!: ctl_then_count frame_divop frame_rot frame_outc frame_inc frame_ini frame_shift_left)

lemma advance_ok:
  assumes "ctl s c s1" and "thread_ok s c" and "colorstate s c = RUNNING \<or> colorstate s c = AWAIT"
  shows "thread_ok (advance s1 c) c"
  using assms
  by (auto simp add: ctl_def thread_ok_def advance_def Let_def)

lemma advance_other:
  assumes "ctl s c s1" and "d \<noteq> c"
  shows "thread_ok (advance s1 c) d = thread_ok s d"
  using assms
  by (auto simp add: ctl_def thread_ok_def advance_def Let_def)

lemma colorexec_ctl: "colorexec s c = Inr s1 \<Longrightarrow> ctl s c s1"
  by (auto simp add: colorexec_def split: sum.splits intro: exec_op_ctl)

lemma py_index_Inl: "py_index xs i = Inl e \<Longrightarrow> e = IndexError"
  by (simp add: py_index_def split: if_splits)

lemma size_advance: "ctl s c s1 \<Longrightarrow> size (advance s1 c) = size s"
  by (simp add: ctl_def advance_def Let_def)

lemma ctl_cong:
  assumes "size s0 = size s" and "colorip s0 = colorip s" and "colorstate s0 = colorstate s"
  shows "ctl s0 c s1 = ctl s c s1"
  using assms by (simp add: ctl_def)

lemma sched_color_cases:
  assumes "sched_color s c = Inr s'"
  shows "(size s' = size s \<and> colorip s' = colorip s \<and> colorstate s' = colorstate s)
     \<or> (colorstate s c = RUNNING \<and> size s' = size s \<and> colorip s' = colorip s
          \<and> colorstate s' = (colorstate s)(c := HALTED))
     \<or> (\<exists>s1. ctl s c s1 \<and> s' = advance s1 c
          \<and> (colorstate s c = RUNNING \<or> colorstate s c = AWAIT))"
proof (cases "colorstate s c = RUNNING")
  case True
  with assms obtain opc where opc: "py_index (colorcode s c) (colorip s c) = Inr opc"
    by (cases "py_index (colorcode s c) (colorip s c)")
      (auto simp add: sched_color_def dest: py_index_Inl)
  show ?thesis
  proof (cases "opc = 188 \<or> opc = 192")
    case True
    then show ?thesis
    proof
      assume "opc = 188"
      with assms \<open>colorstate s c = RUNNING\<close> opc
      have "s' = advance (count ''nop'' s c) c"
        by (simp add: sched_color_def)
      moreover have "ctl s c (count ''nop'' s c)"
        by (simp add: frame_ctl)
      ultimately show ?thesis using \<open>colorstate s c = RUNNING\<close> by blast
    next
      assume "opc = 192"
      with assms \<open>colorstate s c = RUNNING\<close> opc
      have "s' = (count ''halt'' s c)\<lparr>colorstate := (colorstate s)(c := HALTED)\<rparr>"
        by (simp add: sched_color_def)
      then show ?thesis using \<open>colorstate s c = RUNNING\<close>
        by (simp add: count_def)
    qed
  next
    case False
    with assms \<open>colorstate s c = RUNNING\<close> opc
    obtain s1 where "colorexec s c = Inr s1" "s' = advance s1 c"
      by (cases "colorexec s c") (auto simp add: sched_color_def)
    then show ?thesis using \<open>colorstate s c = RUNNING\<close> colorexec_ctl by blast
  qed
next
  case False
  show ?thesis
  proof (cases "colorstate s c = AWAIT")
    case True
    with assms obtain w ws where ws: "waitstack s = w # ws"
      by (cases "waitstack s") (auto simp add: sched_color_def split: if_splits)
    show ?thesis
    proof (cases "w = c \<and> length (astack s) \<ge> 1")
      case True
      let ?s0 = "(count ''waita'' s c)\<lparr>waitstack := ws\<rparr>"
      from assms \<open>colorstate s c = AWAIT\<close> ws True
      obtain s2 where "colorexec ?s0 c = Inr s2" "s' = advance s2 c"
        by (cases "colorexec ?s0 c")
          (auto simp add: sched_color_def count_def split: if_splits)
      moreover have "ctl ?s0 c s2 = ctl s c s2"
        by (rule ctl_cong) (simp_all add: count_def)
      ultimately show ?thesis using \<open>colorstate s c = AWAIT\<close> colorexec_ctl by blast
    next
      case False
      with assms \<open>colorstate s c = AWAIT\<close> ws
      have "s' = s \<or> s' = count ''waita'' s c"
        by (auto simp add: sched_color_def count_def split: if_splits)
      then show ?thesis by (auto simp add: count_def)
    qed
  next
    case False
    with assms \<open>colorstate s c \<noteq> RUNNING\<close> have "s' = s"
      by (auto simp add: sched_color_def split: if_splits)
    then show ?thesis by simp
  qed
qed

lemma sched_color_ok:
  assumes "sched_color s c = Inr s'"
  shows "size s' = size s \<and> (thread_ok s c \<longrightarrow> thread_ok s' c)
     \<and> (\<forall>d. d \<noteq> c \<longrightarrow> thread_ok s' d = thread_ok s d)"
proof -
  from sched_color_cases [OF assms] consider
      (same) "size s' = size s" "colorip s' = colorip s" "colorstate s' = colorstate s"
    | (halt) "colorstate s c = RUNNING" "size s' = size s" "colorip s' = colorip s"
        "colorstate s' = (colorstate s)(c := HALTED)"
    | (adv) s1 where "ctl s c s1" "s' = advance s1 c"
        "colorstate s c = RUNNING \<or> colorstate s c = AWAIT"
    by blast
  then show ?thesis
  proof cases
    case same
    then show ?thesis by (simp add: thread_ok_def)
  next
    case halt
    then show ?thesis by (auto simp add: thread_ok_def)
  next
    case adv
    then show ?thesis
      by (auto simp add: advance_ok advance_other size_advance)
  qed
qed

lemma sched_color_vm_ok:
  assumes "sched_color s c = Inr s'" and "vm_ok s"
  shows "vm_ok s'"
  using sched_color_ok [OF assms(1)] assms(2)
  by (cases c) (auto simp add: vm_ok_def)

lemma for_colors_vm_ok:
  "for_colors cs s = Inr s' \<Longrightarrow> vm_ok s \<Longrightarrow> vm_ok s'"
  by (induction cs arbitrary: s) (auto split: sum.splits dest: sched_color_vm_ok)

lemma vm_ok_mesg [simp]: "vm_ok (mesg m s) = vm_ok s"
  by (simp add: vm_ok_def thread_ok_def mesg_def)

lemma iteration_vm_ok:
  assumes "iteration s = Inr (t, s')" and "vm_ok s"
  shows "vm_ok s'"
  using assms
  by (auto simp add: iteration_def Let_def split: sum.splits if_splits dest: for_colors_vm_ok)

lemma trace_vm_ok:
  "vm_ok s \<Longrightarrow> x \<in> set (trace n s) \<Longrightarrow> vm_ok x"
proof (induction n arbitrary: s)
  case 0
  then show ?case by simp
next
  case (Suc n)
  show ?case
  proof (cases "iteration s")
    case (Inl e)
    with Suc.prems show ?thesis by simp
  next
    case (Inr p)
    obtain t s1 where p: "p = (t, s1)" by (cases p)
    with Inr Suc.prems(1) have ok1: "vm_ok s1"
      by (auto dest: iteration_vm_ok)
    from Suc.prems(2) Inr p have "x = s \<or> x = s1 \<or> x \<in> set (trace n s1)"
      by (auto split: if_splits)
    with Suc.prems(1) ok1 Suc.IH [OF ok1] show ?thesis by blast
  qed
qed

text \<open>A decoded program has at least one cell.\<close>

lemma read_header_size: "read_header quiet img = Inr (cellsize, sz) \<Longrightarrow> 1 \<le> sz"
  by (auto simp add: read_header_def Let_def split: sum.splits prod.splits if_splits)

lemma decode_size: "decode quiet img = Inr (sz, cs) \<Longrightarrow> 1 \<le> sz"
  by (auto simp add: decode_def split: sum.splits prod.splits dest: read_header_size)

text \<open>
  C5 (after every scheduler iteration, each thread has \<open>0 \<le> ip \<le> size\<close>, and is in
  \<^verbatim>\<open>OVERRUN\<close> exactly when \<open>ip = size\<close>): for a program of at least one cell, as
  every decoded program is, every state of the main loop, from the initial state on,
  satisfies the invariant.
\<close>

theorem invariant_every_iteration:
  assumes "1 \<le> sz" and "s \<in> set (trace n (initial_vm quiet input sz cs))"
  shows "vm_ok s"
proof -
  from assms(1) have "vm_ok (initial_vm quiet input sz cs)"
    by (simp add: vm_ok_def thread_ok_def initial_vm_def)
  with assms(2) show ?thesis using trace_vm_ok by blast
qed


theorem invariant_every_iteration_witness:
  "(1 :: int) \<le> 3
   \<and> last (trace (Suc 0) rendezvous_init) \<in> set (trace (Suc 0) rendezvous_init)
   \<and> vm_ok (last (trace (Suc 0) rendezvous_init))"
proof -
  have h1: "(1 :: int) \<le> 3" by simp
  have h2: "last (trace (Suc 0) rendezvous_init) \<in> set (trace (Suc 0) rendezvous_init)"
    by (rule last_in_set) simp
  from invariant_every_iteration [OF h1 h2 [unfolded rendezvous_init_def]]
  have "vm_ok (last (trace (Suc 0) rendezvous_init))"
    by (simp add: rendezvous_init_def)
  with h1 h2 show ?thesis by blast
qed

section \<open>The decoder on an image that is too small\<close>

lemma getpixel_Inl: "getpixel img p = Inl e \<Longrightarrow> e = IndexError"
  by (simp add: getpixel_def split: if_splits)

text \<open>The loop raises as soon as one of the coordinates it is going to visit is outside.\<close>

lemma readloop_fails:
  assumes "nat (sz + 1 - i) = n"
    and "\<exists>p \<in> set (walk (imgxsize img) cs n x y). getpixel img p = Inl IndexError"
  shows "readloop img cs sz i x y acc = Inl IndexError"
  using assms
proof (induction n arbitrary: i x y acc)
  case 0
  then show ?case by simp
next
  case (Suc n)
  from Suc.prems(1) have le: "i \<le> sz" and n: "nat (sz + 1 - (i + 1)) = n"
    by auto
  show ?case
  proof (cases "getpixel img (x, y)")
    case (Inl e)
    then have "e = IndexError" by (rule getpixel_Inl)
    with Inl le show ?thesis by (subst readloop.simps) simp
  next
    case (Inr rgb)
    show ?thesis
    proof (cases "x + cs > imgxsize img - 1")
      case True
      with Inr Suc.prems(2)
      have "\<exists>p \<in> set (walk (imgxsize img) cs n 0 (y + cs)). getpixel img p = Inl IndexError"
        by auto
      from Suc.IH [OF n this]
      have "\<And>acc. readloop img cs sz (i + 1) 0 (y + cs) acc = Inl IndexError" .
      with Inr le True show ?thesis
        by (subst readloop.simps) (simp add: Let_def split: prod.splits)
    next
      case False
      with Inr Suc.prems(2)
      have "\<exists>p \<in> set (walk (imgxsize img) cs n (x + cs) y). getpixel img p = Inl IndexError"
        by auto
      from Suc.IH [OF n this]
      have "\<And>acc. readloop img cs sz (i + 1) (x + cs) y acc = Inl IndexError" .
      with Inr le False show ?thesis
        by (subst readloop.simps) (simp add: Let_def split: prod.splits)
    qed
  qed
qed

text \<open>
  C9 as stated (when the cell walk leaves the image before \<open>size\<close> cells are read, the
  decoder fails with the error \<^verbatim>\<open>ImageTooSmall\<close> and in no other way). On the image one
  pixel wide and two high, the header is read, the walk of its single cell is the position
  \<open>(0, 2)\<close>, which is outside, and the decoder ends in the pixel reader's uncaught
  \<^verbatim>\<open>IndexError\<close>, with no message: the source has no error of its own for this case.
\<close>

theorem tiny_image_index_error:
  "decode False tiny_image = Inl (IndexError, [])
   \<and> read_header False tiny_image = Inr (1, 1)
   \<and> walk (imgxsize tiny_image) 1 1 (fst (first_cell 1 1)) (snd (first_cell 1 1)) = [(0, 2)]
   \<and> getpixel tiny_image (0, 2) = Inl IndexError"
  by (simp add: decode_def read_header_def first_cell_def tiny_image_def getpixel_def
      V_MAJOR_def V_MINOR_def readloop.simps)

text \<open>
  C9 as amended: for every image whose header is accepted and whose cell walk leaves the
  image before \<open>size\<close> cells are read, the decoder does not succeed: it ends in the
  uncaught \<^verbatim>\<open>IndexError\<close> of the pixel reader, and prints no message.
\<close>

theorem walk_out_of_bounds_raises:
  assumes "read_header quiet img = Inr (cellsize, sz)"
    and "\<exists>p \<in> set (walk (imgxsize img) (int cellsize) (nat sz)
                   (fst (first_cell (int cellsize) sz)) (snd (first_cell (int cellsize) sz))).
           getpixel img p = Inl IndexError"
  shows "decode quiet img = Inl (IndexError, [])"
proof -
  have "nat (sz + 1 - 1) = nat sz" by simp
  from readloop_fails [OF this assms(2)] assms(1) show ?thesis
    by (simp add: decode_def)
qed

theorem walk_out_of_bounds_raises_witness:
  "read_header False tiny_image = Inr (1, 1)
   \<and> (\<exists>p \<in> set (walk (imgxsize tiny_image) (int 1) (nat 1)
                   (fst (first_cell (int 1) 1)) (snd (first_cell (int 1) 1))).
         getpixel tiny_image p = Inl IndexError)
   \<and> decode False tiny_image = Inl (IndexError, [])"
proof -
  have h1: "read_header False tiny_image = Inr (1, 1)"
    by (simp add: read_header_def tiny_image_def getpixel_def V_MAJOR_def V_MINOR_def)
  have h2: "\<exists>p \<in> set (walk (imgxsize tiny_image) (int 1) (nat 1)
                   (fst (first_cell (int 1) 1)) (snd (first_cell (int 1) 1))).
         getpixel tiny_image p = Inl IndexError"
    by (simp add: first_cell_def tiny_image_def getpixel_def)
  from walk_out_of_bounds_raises [OF h1 h2] h1 h2 show ?thesis by blast
qed

end
